theory Spec2Isabelle
  imports Main
begin

section \<open>Elements of a tensor product of Kirillov-Reshetikhin tableaux\<close>

text \<open>
  A shallow embedding of the class
  \<^verbatim>\<open>TensorProductOfKirillovReshetikhinTableauxElement\<close> of
  \<^verbatim>\<open>sage/combinat/rigged_configurations/tensor_product_kr_tableaux_element.py\<close>.
  The element is the sequence of its factors. The factors, the parent and the
  bijection engine are collaborators defined elsewhere: what the class calls on
  them is passed to each operation as a function.
\<close>

subsection \<open>Python values and builtins the class uses\<close>

text \<open>The exceptions the operations can raise, as values.\<close>

datatype py_error = IndexError | ValueError | ConstructionError string

text \<open>
  \<^verbatim>\<open>xs[i]\<close> for an index \<^verbatim>\<open>i >= 0\<close>: raises \<^verbatim>\<open>IndexError\<close> out of range.
  The class only indexes with \<^verbatim>\<open>0\<close> and with values of \<^verbatim>\<open>range\<close>,
  which are never negative.
\<close>

definition getitem :: "'a list \<Rightarrow> nat \<Rightarrow> py_error + 'a" where
  "getitem xs i = (if i < length xs then Inr (xs ! i) else Inl IndexError)"

text \<open>\<^verbatim>\<open>sep.join(xs)\<close> on strings.\<close>

fun join :: "string \<Rightarrow> string list \<Rightarrow> string" where
  "join sep [] = []"
| "join sep [x] = x"
| "join sep (x # y # ys) = x @ sep @ join sep (y # ys)"

subsection \<open>\<^verbatim>\<open>_repr_\<close>\<close>

text \<open>
  \<^verbatim>\<open>
  ret_str = repr(self[0])
  for i in range(1, len(self)):
      ret_str += " (X) " + repr(self[i])
  return(ret_str)
  \<close>
  \<open>frepr\<close> is \<^verbatim>\<open>repr\<close> of a factor. The loop is \<open>repr_loop\<close>, over the
  values of \<^verbatim>\<open>range(1, len(self))\<close>.
\<close>

fun repr_loop :: "('f \<Rightarrow> string) \<Rightarrow> 'f list \<Rightarrow> nat list \<Rightarrow> string \<Rightarrow> py_error + string" where
  "repr_loop frepr self [] ret_str = Inr ret_str"
| "repr_loop frepr self (i # is) ret_str =
     (case getitem self i of
        Inl e \<Rightarrow> Inl e
      | Inr x \<Rightarrow> repr_loop frepr self is (ret_str @ '' (X) '' @ frepr x))"

definition repr :: "('f \<Rightarrow> string) \<Rightarrow> 'f list \<Rightarrow> py_error + string" where
  "repr frepr self =
     (case getitem self 0 of
        Inl e \<Rightarrow> Inl e
      | Inr x \<Rightarrow> repr_loop frepr self [1..<length self] (frepr x))"

subsection \<open>\<^verbatim>\<open>_repr_diagram\<close>\<close>

text \<open>
  \<^verbatim>\<open>s.splitlines()\<close> on a \<^verbatim>\<open>str\<close> of Python 2 (the class uses
  \<^verbatim>\<open>xrange\<close>): a line ends at \<^verbatim>\<open>"\n"\<close>, at \<^verbatim>\<open>"\r"\<close> or at
  \<^verbatim>\<open>"\r\n"\<close>; the line ends are dropped, and a text that stops at a line end
  has no empty last line. \<open>line\<close> is the line read so far.
\<close>

fun splitlines_from :: "string \<Rightarrow> string \<Rightarrow> string list" where
  "splitlines_from line [] = (if line = [] then [] else [line])"
| "splitlines_from line [c] =
     (if c = CHR 0x0A \<or> c = CHR 0x0D then [line] else [line @ [c]])"
| "splitlines_from line (c # d # cs) =
     (if c = CHR 0x0D \<and> d = CHR 0x0A then line # splitlines_from [] cs
      else if c = CHR 0x0A \<or> c = CHR 0x0D then line # splitlines_from [] (d # cs)
      else splitlines_from (line @ [c]) (d # cs))"

definition splitlines :: "string \<Rightarrow> string list" where
  "splitlines s = splitlines_from [] s"

text \<open>\<^verbatim>\<open>max(...)\<close> of a sequence: \<^verbatim>\<open>ValueError\<close> when it is empty.\<close>

definition py_max :: "nat list \<Rightarrow> py_error + nat" where
  "py_max xs = (case xs of [] \<Rightarrow> Inl ValueError | x # ys \<Rightarrow> Inr (foldl max x ys))"

text \<open>
  \<^verbatim>\<open>len(t) > 0 and len(t[0]) or 1\<close>, the entry of \<^verbatim>\<open>col_len\<close> for the
  lines \<open>t\<close> of one factor. In Python \<^verbatim>\<open>a and b or c\<close> is \<^verbatim>\<open>c\<close> when
  \<^verbatim>\<open>a\<close> is false and also when \<^verbatim>\<open>b\<close> is \<^verbatim>\<open>0\<close>.
\<close>

definition col_len_of :: "string list \<Rightarrow> nat" where
  "col_len_of t =
     (if length t > 0 then (if length (t ! 0) \<noteq> 0 then length (t ! 0) else 1) else 1)"

text \<open>
  The generator \<^verbatim>\<open>(c[0] for c in comp)\<close>, consumed by \<^verbatim>\<open>join\<close>: the first
  line of each factor, \<^verbatim>\<open>IndexError\<close> at the first factor that has no line.
\<close>

fun first_rows :: "string list list \<Rightarrow> py_error + string list" where
  "first_rows [] = Inr []"
| "first_rows (c # cs) =
     (case getitem c 0 of
        Inl e \<Rightarrow> Inl e
      | Inr r \<Rightarrow> (case first_rows cs of Inl e \<Rightarrow> Inl e | Inr rs \<Rightarrow> Inr (r # rs)))"

text \<open>
  The inner loop, over the values \<open>c\<close> of \<^verbatim>\<open>range(num_comp)\<close>:
  \<^verbatim>\<open>
  if c > 0:
      diag += '     ' # For the tensor symbol
  if row < len(comp[c]):
      diag += comp[c][row]
  else:
      diag += ' '*col_len[c]
  \<close>
  \<open>c\<close> is below \<^verbatim>\<open>num_comp\<close>, the length of \<^verbatim>\<open>comp\<close> and of
  \<^verbatim>\<open>col_len\<close>, and \<^verbatim>\<open>comp[c][row]\<close> is read under its own guard.
\<close>

fun diagram_cells ::
  "string list list \<Rightarrow> nat list \<Rightarrow> nat \<Rightarrow> nat list \<Rightarrow> string \<Rightarrow> string" where
  "diagram_cells comps col_len row [] diag = diag"
| "diagram_cells comps col_len row (c # cs) diag =
     (let diag1 = (if c > 0 then diag @ ''     '' else diag);
          diag2 = (if row < length (comps ! c) then diag1 @ comps ! c ! row
                   else diag1 @ replicate (col_len ! c) CHR '' '')
      in diagram_cells comps col_len row cs diag2)"

text \<open>
  The outer loop, over the values \<open>row\<close> of \<^verbatim>\<open>xrange(1, num_rows)\<close>:
  \<^verbatim>\<open>diag += '\n'\<close>, then the inner loop.
\<close>

fun diagram_rows ::
  "string list list \<Rightarrow> nat list \<Rightarrow> nat \<Rightarrow> nat list \<Rightarrow> string \<Rightarrow> string" where
  "diagram_rows comps col_len num_comp [] diag = diag"
| "diagram_rows comps col_len num_comp (row # rows) diag =
     diagram_rows comps col_len num_comp rows
       (diagram_cells comps col_len row [0..<num_comp] (diag @ [CHR 0x0A]))"

text \<open>
  \<^verbatim>\<open>
  comp = [crys._repr_diagram().splitlines() for crys in self]
  num_comp = len(comp) # number of components
  col_len = [len(t) > 0 and len(t[0]) or 1 for t in comp]  # columns per component
  num_rows = max(len(t) for t in comp)                     # number of rows
  diag = ''
  diag += ' (X) '.join(c[0] for c in comp)
  for row in xrange(1, num_rows): ...
  return diag
  \<close>
  \<open>fdiag\<close> is \<^verbatim>\<open>_repr_diagram\<close> of a factor, and \<open>comp_of\<close> is the
  list \<^verbatim>\<open>comp\<close> of the lines of each factor.
\<close>

definition comp_of :: "('f \<Rightarrow> string) \<Rightarrow> 'f list \<Rightarrow> string list list" where
  "comp_of fdiag self = map (\<lambda>crys. splitlines (fdiag crys)) self"

definition repr_diagram :: "('f \<Rightarrow> string) \<Rightarrow> 'f list \<Rightarrow> py_error + string" where
  "repr_diagram fdiag self =
     (let comps = comp_of fdiag self;
          num_comp = length comps;
          col_len = map col_len_of comps
      in case py_max (map length comps) of
           Inl e \<Rightarrow> Inl e
         | Inr num_rows \<Rightarrow>
             (case first_rows comps of
                Inl e \<Rightarrow> Inl e
              | Inr firsts \<Rightarrow>
                  Inr (diagram_rows comps col_len num_comp [1..<num_rows]
                         ([] @ join '' (X) '' firsts))))"

text \<open>
  What one pass of the inner loop appends for factor \<open>c\<close> on row \<open>row\<close>:
  the five blanks when it is not the first factor, then the row or its padding.
\<close>

definition diagram_cell :: "string list list \<Rightarrow> nat list \<Rightarrow> nat \<Rightarrow> nat \<Rightarrow> string" where
  "diagram_cell comps col_len row c =
     (if c > 0 then ''     '' else []) @
     (if row < length (comps ! c) then comps ! c ! row else replicate (col_len ! c) CHR '' '')"

subsection \<open>\<^verbatim>\<open>__init__\<close>\<close>




subsection \<open>\<^verbatim>\<open>classical_weight\<close>\<close>

text \<open>
  \<^verbatim>\<open>sum(xs)\<close>: the items are added from the left, starting from \<^verbatim>\<open>0\<close>.
  The weights are elements of a weight lattice, which \<^verbatim>\<open>0\<close> is coerced
  to: a type with an associative addition and a zero.
\<close>

definition py_sum :: "'w::monoid_add list \<Rightarrow> 'w" where
  "py_sum xs = foldl (+) 0 xs"

text \<open>
  \<^verbatim>\<open>return sum([x.classical_weight() for x in self])\<close>;
  \<open>fweight\<close> is \<^verbatim>\<open>classical_weight\<close> of a factor.
\<close>

definition classical_weight :: "('f \<Rightarrow> 'w::monoid_add) \<Rightarrow> 'f list \<Rightarrow> 'w" where
  "classical_weight fweight self = py_sum (map fweight self)"

subsection \<open>\<^verbatim>\<open>to_tensor_product_of_kirillov_reshetikhin_crystals\<close>\<close>

text \<open>
  \<^verbatim>\<open>
  TP = self.parent().tensor_product_of_kirillov_reshetikhin_crystals()
  return TP(*[x.to_kirillov_reshetikhin_crystal() for x in self])
  \<close>
  \<open>TP\<close> builds an element of the tensor product of crystals of the parent from
  its arguments, and \<open>to_krc\<close> is \<^verbatim>\<open>to_kirillov_reshetikhin_crystal\<close> of a
  factor.
\<close>

definition to_tensor_product_of_kirillov_reshetikhin_crystals ::
  "('c list \<Rightarrow> py_error + 't) \<Rightarrow> ('f \<Rightarrow> 'c) \<Rightarrow> 'f list \<Rightarrow> py_error + 't" where
  "to_tensor_product_of_kirillov_reshetikhin_crystals TP to_krc self = TP (map to_krc self)"

subsection \<open>The layout of a diagram, as the specification words it\<close>

text \<open>
  A well-formed rectangle: at least one row, at least one column, and every row
  as wide as the first.
\<close>

definition well_formed :: "string list \<Rightarrow> bool" where
  "well_formed t = (t \<noteq> [] \<and> t ! 0 \<noteq> [] \<and> list_all (\<lambda>r. length r = length (t ! 0)) t)"

definition width :: "string list \<Rightarrow> nat" where
  "width t = length (t ! 0)"

text \<open>
  Row \<open>row\<close> of one factor in the layout: its own row when it has one, and
  blanks of its own width when it has fewer rows.
\<close>

definition padded_cell :: "string list \<Rightarrow> nat \<Rightarrow> string" where
  "padded_cell t row = (if row < length t then t ! row else replicate (width t) CHR '' '')"

text \<open>
  A row of the layout: the cells of the factors, side by side, with the tensor
  symbol between them on the first row and five blanks on the others.
\<close>

definition aligned_row :: "string list list \<Rightarrow> nat \<Rightarrow> string" where
  "aligned_row comps row =
     join (if row = 0 then '' (X) '' else ''     '') (map (\<lambda>t. padded_cell t row) comps)"

text \<open>The layout: as many rows as the tallest factor has, one per line.\<close>

definition aligned_diagram :: "string list list \<Rightarrow> string" where
  "aligned_diagram comps =
     join [CHR 0x0A] (map (aligned_row comps) [0..<Max (set (map length comps))])"

section \<open>Properties\<close>

subsection \<open>Joining\<close>

lemma join_Cons: "join sep (x # xs) = x @ concat (map (\<lambda>y. sep @ y) xs)"
  by (induction xs arbitrary: x) simp_all

lemma join_snoc: "xs \<noteq> [] \<Longrightarrow> join sep (xs @ [y]) = join sep xs @ sep @ y"
  by (cases xs) (simp_all add: join_Cons)

lemma concat_sep_join:
  "concat (map (\<lambda>c. (if c > 0 then sep else []) @ ys ! c) [0..<length ys]) = join sep ys"
proof (induction ys rule: rev_induct)
  case Nil
  show ?case by simp
next
  case (snoc y ys)
  have same: "concat (map (\<lambda>c. (if c > 0 then sep else []) @ (ys @ [y]) ! c) [0..<length ys]) =
        concat (map (\<lambda>c. (if c > 0 then sep else []) @ ys ! c) [0..<length ys])"
    by (rule arg_cong [where f = concat]) (simp add: nth_append)
  show ?case
  proof (cases "ys = []")
    case True
    then show ?thesis by simp
  next
    case False
    have "concat (map (\<lambda>c. (if c > 0 then sep else []) @ (ys @ [y]) ! c) [0..<length (ys @ [y])]) =
          concat (map (\<lambda>c. (if c > 0 then sep else []) @ (ys @ [y]) ! c) [0..<length ys]) @ sep @ y"
      using False by simp
    also have "\<dots> = join sep ys @ sep @ y"
      unfolding same snoc.IH ..
    finally show ?thesis using False by (simp add: join_snoc)
  qed
qed

lemma length_join_add:
  "ys \<noteq> [] \<Longrightarrow>
   length (join sep ys) + length sep = sum_list (map length ys) + length sep * length ys"
proof (induction ys rule: rev_induct)
  case Nil
  then show ?case by simp
next
  case (snoc y ys)
  then show ?case
    by (cases "ys = []") (simp_all add: join_snoc algebra_simps)
qed

lemma length_join:
  "length (join sep ys) = sum_list (map length ys) + length sep * (length ys - 1)"
proof (cases "ys = []")
  case True
  then show ?thesis by simp
next
  case False
  then show ?thesis
    using length_join_add [of ys sep] by (cases ys) (simp_all add: algebra_simps)
qed

subsection \<open>The single-line representation\<close>

lemma repr_loop_upt:
  "k \<le> length self \<Longrightarrow>
   repr_loop frepr self [k..<length self] acc =
     Inr (acc @ concat (map (\<lambda>x. '' (X) '' @ frepr x) (drop k self)))"
proof (induction "length self - k" arbitrary: k acc)
  case 0
  then show ?case by simp
next
  case (Suc n)
  then have lt: "k < length self" by arith
  then have upt: "[k..<length self] = k # [Suc k..<length self]"
    by (simp add: upt_conv_Cons)
  have dr: "drop k self = self ! k # drop (Suc k) self"
    using lt by (simp add: Cons_nth_drop_Suc)
  have "n = length self - Suc k" using Suc.hyps(2) by arith
  moreover have "Suc k \<le> length self" using lt by simp
  ultimately have ih: "repr_loop frepr self [Suc k..<length self] acc' =
      Inr (acc' @ concat (map (\<lambda>x. '' (X) '' @ frepr x) (drop (Suc k) self)))" for acc'
    using Suc.hyps(1) by blast
  show ?case
    unfolding upt dr using lt by (simp add: getitem_def ih)
qed

lemma repr_nonempty:
  assumes ne: "self \<noteq> []"
  shows "repr frepr self =
      Inr (frepr (self ! 0) @ concat (map (\<lambda>x. '' (X) '' @ frepr x) (drop 1 self)))"
proof -
  have len: "1 \<le> length self" using ne by (cases self) simp_all
  have loop: "repr_loop frepr self [1..<length self] (frepr (self ! 0)) =
      Inr (frepr (self ! 0) @ concat (map (\<lambda>x. '' (X) '' @ frepr x) (drop 1 self)))"
    by (rule repr_loop_upt [OF len])
  have "getitem self 0 = Inr (self ! 0)" using ne by (simp add: getitem_def)
  then show ?thesis
    unfolding repr_def loop [symmetric] by simp
qed

text \<open>
  C3. For an element with at least one factor, \<^verbatim>\<open>_repr_\<close> returns the
  representations of the factors, in the order of the factors, joined by
  \<^verbatim>\<open>" (X) "\<close>.
\<close>

theorem repr_is_join:
  "self \<noteq> [] \<Longrightarrow> repr frepr self = Inr (join '' (X) '' (map frepr self))"
proof -
  assume ne: "self \<noteq> []"
  then obtain x xs where s: "self = x # xs" by (cases self) auto
  show ?thesis
    unfolding repr_nonempty [OF ne] by (simp add: s join_Cons comp_def)
qed

theorem repr_is_join_witness:
  "[''[[2], [3]]'', ''[[1]]'', ''[[-1]]'', ''[[1]]''] \<noteq> []
   \<and> repr (\<lambda>x. x) [''[[2], [3]]'', ''[[1]]'', ''[[-1]]'', ''[[1]]'']
       = Inr ''[[2], [3]] (X) [[1]] (X) [[-1]] (X) [[1]]''"
  using repr_is_join [of "[''[[2], [3]]'', ''[[1]]'', ''[[-1]]'', ''[[1]]'']" "\<lambda>x. x"]
  by simp

text \<open>
  C10. \<^verbatim>\<open>_repr_\<close> reads \<^verbatim>\<open>self[0]\<close> before the loop: for the element with
  no factor it fails with \<^verbatim>\<open>IndexError\<close>, and returns no empty string. For
  an element with at least one factor it returns a string, and every index it
  reads, \<^verbatim>\<open>0\<close> and the values of \<^verbatim>\<open>range(1, len(self))\<close>, is in range.
\<close>

theorem repr_total_iff_nonempty:
  "repr frepr [] = Inl IndexError
   \<and> (self \<noteq> [] \<longrightarrow> (\<exists>s. repr frepr self = Inr s)
        \<and> (\<forall>i \<in> set (0 # [1..<length self]). \<exists>x. getitem self i = Inr x))"
proof (intro conjI impI)
  show "repr frepr [] = Inl IndexError" by (simp add: repr_def getitem_def)
next
  assume ne: "self \<noteq> []"
  show "\<exists>s. repr frepr self = Inr s"
    unfolding repr_nonempty [OF ne] by blast
next
  assume ne: "self \<noteq> []"
  then show "\<forall>i \<in> set (0 # [1..<length self]). \<exists>x. getitem self i = Inr x"
    by (auto simp: getitem_def)
qed

theorem repr_total_iff_nonempty_witness:
  "repr (\<lambda>x. x) ([] :: string list) = Inl IndexError
   \<and> [''[[2]]'', ''[[1], [4]]''] \<noteq> []
   \<and> repr (\<lambda>x. x) [''[[2]]'', ''[[1], [4]]''] = Inr ''[[2]] (X) [[1], [4]]''
   \<and> getitem [''[[2]]'', ''[[1], [4]]''] 0 = Inr ''[[2]]''
   \<and> getitem [''[[2]]'', ''[[1], [4]]''] 1 = Inr ''[[1], [4]]''"
  using repr_total_iff_nonempty [of "\<lambda>x. x" "[''[[2]]'', ''[[1], [4]]'']"]
  by (simp add: repr_def getitem_def)

subsection \<open>The diagram\<close>

lemma first_rows_nonempty:
  "list_all (\<lambda>t. t \<noteq> []) comps \<Longrightarrow> first_rows comps = Inr (map (\<lambda>t. t ! 0) comps)"
  by (induction comps) (simp_all add: getitem_def)

lemma first_rows_empty_line:
  "[] \<in> set comps \<Longrightarrow> first_rows comps = Inl IndexError"
proof (induction comps)
  case Nil
  then show ?case by simp
next
  case (Cons c cs)
  show ?case
  proof (cases "c = []")
    case True
    then show ?thesis by (simp add: getitem_def)
  next
    case False
    then have "[] \<in> set cs" using Cons.prems by auto
    then have "first_rows cs = Inl IndexError" by (rule Cons.IH)
    then show ?thesis using False by (simp add: getitem_def)
  qed
qed

lemma foldl_max_Max: "foldl max (x::nat) ys = Max (set (x # ys))"
proof (induction ys arbitrary: x)
  case Nil
  show ?case by simp
next
  case (Cons y ys)
  have "foldl max x (y # ys) = Max (set (max x y # ys))" using Cons by simp
  also have "\<dots> = Max (set (x # y # ys))"
    by (cases "ys = []") (simp_all add: Max_insert max.assoc)
  finally show ?case .
qed

lemma py_max_Max: "xs \<noteq> [] \<Longrightarrow> py_max xs = Inr (Max (set xs))"
  by (cases xs) (simp_all add: py_max_def foldl_max_Max del: foldl_Cons)

lemma diagram_cells_concat:
  "diagram_cells comps col_len row cs diag =
     diag @ concat (map (diagram_cell comps col_len row) cs)"
  by (induction cs arbitrary: diag) (simp_all add: diagram_cell_def Let_def)

lemma diagram_rows_concat:
  "diagram_rows comps col_len n rows diag =
     diag @ concat (map (\<lambda>row. CHR 0x0A # concat (map (diagram_cell comps col_len row) [0..<n])) rows)"
  by (induction rows arbitrary: diag) (simp_all add: diagram_cells_concat)

lemma well_formed_col_len: "well_formed t \<Longrightarrow> col_len_of t = width t"
  by (simp add: well_formed_def col_len_of_def width_def)

lemma padded_cell_width:
  assumes "well_formed t"
  shows "length (padded_cell t row) = width t"
proof (cases "row < length t")
  case True
  from assms have "list_all (\<lambda>r. length r = length (t ! 0)) t"
    unfolding well_formed_def by blast
  then have "length (t ! row) = length (t ! 0)"
    using True unfolding list_all_length by blast
  then show ?thesis using True by (simp only: padded_cell_def width_def if_True)
next
  case False
  then show ?thesis by (simp only: padded_cell_def width_def if_False length_replicate)
qed

lemma cells_aligned_row:
  assumes wf: "list_all well_formed comps" and row: "row > 0"
  shows "concat (map (diagram_cell comps (map col_len_of comps) row) [0..<length comps]) =
         aligned_row comps row"
proof -
  let ?ys = "map (\<lambda>t. padded_cell t row) comps"
  have c: "diagram_cell comps (map col_len_of comps) row c =
        (if c > 0 then ''     '' else []) @ ?ys ! c" if "c < length comps" for c
  proof -
    have "well_formed (comps ! c)" using wf that by (simp add: list_all_length)
    then show ?thesis using that
      by (simp add: diagram_cell_def padded_cell_def well_formed_col_len)
  qed
  have "concat (map (diagram_cell comps (map col_len_of comps) row) [0..<length comps]) =
        concat (map (\<lambda>c. (if c > 0 then ''     '' else []) @ ?ys ! c) [0..<length ?ys])"
    by (rule arg_cong [where f = concat]) (simp add: c)
  also have "\<dots> = join ''     '' ?ys"
    by (rule concat_sep_join)
  also have "\<dots> = aligned_row comps row"
    using row by (simp add: aligned_row_def)
  finally show ?thesis .
qed

lemma first_rows_well_formed:
  assumes wf: "list_all well_formed comps"
  shows "first_rows comps = Inr (map (\<lambda>t. t ! 0) comps)"
proof -
  have "list_all (\<lambda>t. t \<noteq> []) comps"
    using wf by (simp add: list_all_iff well_formed_def)
  then show ?thesis by (rule first_rows_nonempty)
qed

lemma first_row_aligned:
  assumes wf: "list_all well_formed comps"
  shows "join '' (X) '' (map (\<lambda>t. t ! 0) comps) = aligned_row comps 0"
proof -
  have "map (\<lambda>t. t ! 0) comps = map (\<lambda>t. padded_cell t 0) comps"
    using wf by (simp add: list_all_iff padded_cell_def well_formed_def)
  then show ?thesis
    unfolding aligned_row_def by (simp only: if_True refl)
qed

lemma Max_lengths_pos:
  assumes "comps \<noteq> []" and "list_all well_formed comps"
  shows "0 < Max (set (map length comps))"
proof -
  obtain t ts where c: "comps = t # ts" using assms(1) by (cases comps) auto
  then have "0 < length t" using assms(2) by (simp add: well_formed_def)
  moreover have "length t \<le> Max (set (map length comps))"
    by (rule Max_ge) (simp_all add: c)
  ultimately show ?thesis by arith
qed

lemma diagram_rows_aligned:
  assumes wf: "list_all well_formed comps" and ne: "comps \<noteq> []"
  shows "diagram_rows comps (map col_len_of comps) (length comps)
           [1..<Max (set (map length comps))] ([] @ aligned_row comps 0) =
         aligned_diagram comps"
proof -
  let ?h = "Max (set (map length comps))"
  let ?nl = "[CHR 0x0A]"
  have h: "0 < ?h" using ne wf by (rule Max_lengths_pos)
  have rows: "concat (map (\<lambda>row. CHR 0x0A # concat (map (diagram_cell comps (map col_len_of comps) row)
                 [0..<length comps])) [1..<?h]) =
              concat (map (\<lambda>row. ?nl @ aligned_row comps row) [1..<?h])"
    by (rule arg_cong [where f = concat]) (simp add: cells_aligned_row [OF wf])
  have "[0..<?h] = 0 # [1..<?h]" using h by (simp add: upt_conv_Cons)
  then have "aligned_diagram comps =
        aligned_row comps 0 @ concat (map (\<lambda>row. ?nl @ aligned_row comps row) [1..<?h])"
    unfolding aligned_diagram_def by (simp only: list.map join_Cons map_map comp_def)
  moreover have "diagram_rows comps (map col_len_of comps) (length comps) [1..<?h]
          ([] @ aligned_row comps 0) =
        aligned_row comps 0 @ concat (map (\<lambda>row. ?nl @ aligned_row comps row) [1..<?h])"
    unfolding diagram_rows_concat rows by simp
  ultimately show ?thesis by simp
qed

lemma repr_diagram_layout:
  assumes wf: "list_all well_formed (comp_of fdiag self)"
  shows "repr_diagram fdiag self =
          (if self = [] then Inl ValueError else Inr (aligned_diagram (comp_of fdiag self)))"
proof (cases "self = []")
  case True
  then show ?thesis by (simp add: repr_diagram_def comp_of_def py_max_def)
next
  case False
  let ?comps = "comp_of fdiag self"
  have ne: "?comps \<noteq> []" using False by (simp add: comp_of_def)
  have m: "py_max (map length ?comps) = Inr (Max (set (map length ?comps)))"
    using ne by (intro py_max_Max) simp
  show ?thesis
    unfolding repr_diagram_def Let_def m first_rows_well_formed [OF wf]
    using False diagram_rows_aligned [OF wf ne] first_row_aligned [OF wf]
    by simp
qed

lemma aligned_row_length:
  assumes wf: "list_all well_formed comps"
  shows "length (aligned_row comps row) = sum_list (map width comps) + 5 * (length comps - 1)"
proof -
  have "map length (map (\<lambda>t. padded_cell t row) comps) = map width comps"
    using wf by (simp add: list_all_iff padded_cell_width)
  then have "sum_list (map length (map (\<lambda>t. padded_cell t row) comps)) = sum_list (map width comps)"
    by (rule arg_cong)
  then show ?thesis
    using length_join [of "if row = 0 then '' (X) '' else ''     ''" "map (\<lambda>t. padded_cell t row) comps"]
    by (simp add: aligned_row_def)
qed

text \<open>
  C5. When the diagram of every factor is a well-formed rectangle,
  \<^verbatim>\<open>_repr_diagram\<close> returns the layout of the specification: one line for
  each row of the tallest factor; on the first line the first rows of the
  factors joined by \<^verbatim>\<open>" (X) "\<close>; on every other line, for each factor, its
  own row or, when it has fewer rows, blanks of its own width, with five blanks
  between the factors. In every row the cell of a factor is as wide as the
  factor, so all rows have one length, whichever factors are the taller ones.
  (With no factor there is no diagram: \<^verbatim>\<open>max\<close> of the empty sequence raises
  \<^verbatim>\<open>ValueError\<close>.)
\<close>

theorem repr_diagram_aligned:
  assumes "list_all well_formed (comp_of fdiag self)"
  shows "repr_diagram fdiag self =
           (if self = [] then Inl ValueError else Inr (aligned_diagram (comp_of fdiag self)))
       \<and> (\<forall>row. map (\<lambda>t. length (padded_cell t row)) (comp_of fdiag self) =
                  map width (comp_of fdiag self))
       \<and> (\<forall>row. length (aligned_row (comp_of fdiag self) row) =
                  sum_list (map width (comp_of fdiag self)) + 5 * (length self - 1))"
proof (intro conjI allI)
  show "repr_diagram fdiag self =
           (if self = [] then Inl ValueError else Inr (aligned_diagram (comp_of fdiag self)))"
    using assms by (rule repr_diagram_layout)
next
  fix row
  show "map (\<lambda>t. length (padded_cell t row)) (comp_of fdiag self) = map width (comp_of fdiag self)"
    using assms by (simp add: list_all_iff padded_cell_width)
next
  fix row
  have "length (comp_of fdiag self) = length self" by (simp add: comp_of_def)
  then show "length (aligned_row (comp_of fdiag self) row) =
        sum_list (map width (comp_of fdiag self)) + 5 * (length self - 1)"
    using aligned_row_length [OF assms, of row] by simp
qed

theorem repr_diagram_aligned_witness:
  "list_all well_formed (comp_of (\<lambda>x. x)
     [''  1  1\<newline>  2  2'', ''  1\<newline>  2\<newline>  3'', ''  1  1  1\<newline>  2  2  2\<newline>  3  3  3''])
   \<and> repr_diagram (\<lambda>x. x)
     [''  1  1\<newline>  2  2'', ''  1\<newline>  2\<newline>  3'', ''  1  1  1\<newline>  2  2  2\<newline>  3  3  3'']
     = Inr ''  1  1 (X)   1 (X)   1  1  1\<newline>  2  2       2       2  2  2\<newline>             3       3  3  3''
   \<and> map (\<lambda>row. length (aligned_row (comp_of (\<lambda>x. x)
     [''  1  1\<newline>  2  2'', ''  1\<newline>  2\<newline>  3'', ''  1  1  1\<newline>  2  2  2\<newline>  3  3  3'']) row)) [0, 1, 2]
     = [28, 28, 28]"
  using repr_diagram_aligned [of "\<lambda>x. x"
     "[''  1  1\<newline>  2  2'', ''  1\<newline>  2\<newline>  3'', ''  1  1  1\<newline>  2  2  2\<newline>  3  3  3'']"]
  by (simp add: comp_of_def splitlines_def well_formed_def aligned_diagram_def aligned_row_def
        padded_cell_def width_def)

text \<open>
  Outside the well-formed rectangles the layout is not kept. A factor whose rows
  are empty strings is padded with one blank where it has no row, because
  \<^verbatim>\<open>len(t[0])\<close> is \<^verbatim>\<open>0\<close> there: the second line below is one
  character longer than the first.
\<close>

lemma repr_diagram_zero_width:
  "repr_diagram (\<lambda>x. x) [''\<newline>'', ''ab\<newline>cd''] = Inr '' (X) ab\<newline>      cd''"
  by (simp add: repr_diagram_def comp_of_def splitlines_def py_max_def getitem_def col_len_of_def)

lemma repr_diagram_no_line:
  assumes "[] \<in> set (comp_of fdiag self)"
  shows "repr_diagram fdiag self = Inl IndexError"
proof -
  have "comp_of fdiag self \<noteq> []" using assms by auto
  then obtain n where "py_max (map length (comp_of fdiag self)) = Inr n"
    by (cases "comp_of fdiag self") (simp_all add: py_max_def)
  then show ?thesis
    using first_rows_empty_line [OF assms] by (simp add: repr_diagram_def)
qed


subsection \<open>Construction\<close>






subsection \<open>The classical weight\<close>

lemma foldl_add_sum_list: "foldl (+) (a::'w::monoid_add) xs = a + sum_list xs"
  by (induction xs arbitrary: a) (simp_all add: add.assoc)

text \<open>
  C4. \<^verbatim>\<open>classical_weight\<close> of an element is the sum, in the weight lattice, of
  the classical weights of its factors; only the factors compute weights.
\<close>

theorem classical_weight_is_sum:
  "classical_weight fweight self = sum_list (map fweight self)"
  by (simp add: classical_weight_def py_sum_def foldl_add_sum_list)

subsection \<open>The tensor product of crystals\<close>

text \<open>
  C8. \<^verbatim>\<open>to_tensor_product_of_kirillov_reshetikhin_crystals\<close> returns what the
  tensor product of crystals of the parent builds from one argument for each
  factor, in the order of the factors: argument \<open>i\<close> is
  \<^verbatim>\<open>to_kirillov_reshetikhin_crystal\<close> of factor \<open>i\<close> and of no other.
\<close>

theorem to_tensor_product_factorwise:
  "\<exists>args. to_tensor_product_of_kirillov_reshetikhin_crystals TP to_krc self = TP args
      \<and> length args = length self \<and> (\<forall>i<length self. args ! i = to_krc (self ! i))"
  by (rule exI [where x = "map to_krc self"])
     (simp add: to_tensor_product_of_kirillov_reshetikhin_crystals_def)

theorem to_tensor_product_factorwise_witness:
  "to_tensor_product_of_kirillov_reshetikhin_crystals Inr (map (take 1))
       [[[- 1]], [[2, 1], [- 1, - 1 :: int]]]
     = (Inr [[[- 1]], [[2], [- 1]]] :: py_error + int list list list)
   \<and> length [[[- 1]], [[2], [- 1 :: int]]] = length [[[- 1]], [[2, 1], [- 1, - 1 :: int]]]
   \<and> [[[- 1]], [[2], [- 1 :: int]]] ! 0 = map (take 1) ([[[- 1]], [[2, 1], [- 1, - 1]]] ! 0)
   \<and> [[[- 1]], [[2], [- 1 :: int]]] ! 1 = map (take 1) ([[[- 1]], [[2, 1], [- 1, - 1]]] ! 1)"
  using to_tensor_product_factorwise
          [where TP = "Inr :: int list list list \<Rightarrow> py_error + int list list list"
             and to_krc = "map (take 1)" and self = "[[[- 1]], [[2, 1], [- 1, - 1 :: int]]]"]
  by (simp add: to_tensor_product_of_kirillov_reshetikhin_crystals_def)

end
